theory Spec2Isabelle
  imports Complex_Main "HOL-Library.AList"
begin

section \<open>Python values and the operations the code applies to them\<close>

text \<open>
  The values handled by \<^verbatim>\<open>api_client.py\<close> and \<^verbatim>\<open>data_processor.py\<close> are what
  \<^verbatim>\<open>response.json()\<close> produces: \<^verbatim>\<open>None\<close>, booleans, integers, floats, strings, lists
  and dictionaries with string keys. A dictionary is an association list in insertion
  order, looked up with \<open>map_of\<close>. A float is the rational number it denotes; the code
  only compares floats with 0 and 100, which is exact. The not-a-number and infinite
  floats, which are no JSON, are left out.
\<close>

datatype json =
    JNull
  | JBool bool
  | JInt int
  | JFloat rat
  | JStr string
  | JList "json list"
  | JDict "(string \<times> json) list"

text \<open>The exceptions that the modelled code can meet.\<close>

datatype exc = RequestException | ValueError | AttributeError | TypeError

text \<open>Python's truth value of an object, as used by \<^verbatim>\<open>if not items\<close> and \<^verbatim>\<open>if demo_uuids\<close>.\<close>

fun truthy :: "json \<Rightarrow> bool" where
  "truthy JNull = False"
| "truthy (JBool b) = b"
| "truthy (JInt i) = (i \<noteq> 0)"
| "truthy (JFloat q) = (q \<noteq> 0)"
| "truthy (JStr s) = (s \<noteq> [])"
| "truthy (JList xs) = (xs \<noteq> [])"
| "truthy (JDict kvs) = (kvs \<noteq> [])"

text \<open>
  \<^verbatim>\<open>obj.get(key, default)\<close>: only a dictionary has the method; on every other object the
  attribute lookup raises \<^verbatim>\<open>AttributeError\<close>.
\<close>

fun py_get :: "json \<Rightarrow> string \<Rightarrow> json \<Rightarrow> exc + json" where
  "py_get (JDict kvs) k d = Inr (case map_of kvs k of None \<Rightarrow> d | Some v \<Rightarrow> v)"
| "py_get _ k d = Inl AttributeError"

text \<open>
  Iterating an object (\<^verbatim>\<open>list.extend\<close>, \<^verbatim>\<open>enumerate\<close>): a list gives its elements, a
  string its characters, a dictionary its keys; \<^verbatim>\<open>None\<close>, booleans and numbers are not
  iterable and raise \<^verbatim>\<open>TypeError\<close>.
\<close>

fun py_iter :: "json \<Rightarrow> exc + json list" where
  "py_iter (JList xs) = Inr xs"
| "py_iter (JStr s) = Inr (map (\<lambda>c. JStr [c]) s)"
| "py_iter (JDict kvs) = Inr (map (\<lambda>kv. JStr (fst kv)) kvs)"
| "py_iter _ = Inl TypeError"

text \<open>\<^verbatim>\<open>next_page == 0\<close>: true of the number 0 and of \<^verbatim>\<open>False\<close>, false of everything else.\<close>

fun py_eq_zero :: "json \<Rightarrow> bool" where
  "py_eq_zero (JInt i) = (i = 0)"
| "py_eq_zero (JFloat q) = (q = 0)"
| "py_eq_zero (JBool b) = (\<not> b)"
| "py_eq_zero _ = False"

text \<open>
  \<^verbatim>\<open>page > 100\<close>: numbers compare, a boolean counts as 0 or 1, and every other object
  raises \<^verbatim>\<open>TypeError\<close>.
\<close>

fun py_gt :: "json \<Rightarrow> int \<Rightarrow> exc + bool" where
  "py_gt (JInt i) k = Inr (i > k)"
| "py_gt (JFloat q) k = Inr (q > of_int k)"
| "py_gt (JBool b) k = Inr ((if b then 1 else 0) > k)"
| "py_gt _ k = Inl TypeError"


section \<open>Transport: \<^verbatim>\<open>get_consensus_data_with_pagination\<close>\<close>

text \<open>
  The network is the environment. \<^verbatim>\<open>self.session.post(self.base_url, json=request_body)\<close>
  is a function of the number of requests already made in this run and of the
  \<^verbatim>\<open>page\<close> written into the request body (dates, limit and credentials are fixed during a
  run). It raises or gives a response: a status code and a body, \<open>None\<close> for a body that
  is not JSON.
\<close>

record response =
  status_code :: nat
  body :: "json option"

type_synonym session_post = "nat \<Rightarrow> json \<Rightarrow> exc + response"

text \<open>\<^verbatim>\<open>response.raise_for_status()\<close> raises an \<^verbatim>\<open>HTTPError\<close>, a \<^verbatim>\<open>RequestException\<close>, on 4xx and 5xx.\<close>

definition raise_for_status :: "response \<Rightarrow> exc + unit" where
  "raise_for_status r =
     (if 400 \<le> status_code r \<and> status_code r < 600 then Inl RequestException else Inr ())"

text \<open>\<^verbatim>\<open>response.json()\<close> raises a \<^verbatim>\<open>ValueError\<close> on a body that does not decode.\<close>

definition response_json :: "response \<Rightarrow> exc + json" where
  "response_json r = (case body r of None \<Rightarrow> Inl ValueError | Some j \<Rightarrow> Inr j)"

text \<open>Lines 218 to 228: the body of the \<^verbatim>\<open>try\<close> block.\<close>

definition fetch_body :: "session_post \<Rightarrow> nat \<Rightarrow> json \<Rightarrow> exc + json" where
  "fetch_body post n page =
     (case post n page of
        Inl e \<Rightarrow> Inl e
      | Inr r \<Rightarrow>
          (case raise_for_status r of
             Inl e \<Rightarrow> Inl e
           | Inr _ \<Rightarrow>
               (case response_json r of
                  Inl e \<Rightarrow> Inl e
                | Inr data \<Rightarrow>
                    (case data of
                       JDict kvs \<Rightarrow>
                         (case map_of kvs ''data'' of
                            Some d \<Rightarrow> Inr d
                          | None \<Rightarrow> Inr JNull)
                     | _ \<Rightarrow> Inr JNull))))"

text \<open>
  The whole method: the two \<^verbatim>\<open>except\<close> clauses turn \<^verbatim>\<open>RequestException\<close> and
  \<^verbatim>\<open>ValueError\<close> into the return value \<^verbatim>\<open>None\<close>; any other exception would leave the
  method. The result \<open>Inr JNull\<close> is Python's \<^verbatim>\<open>None\<close>, the failure signal.
\<close>

definition get_consensus_data_with_pagination :: "session_post \<Rightarrow> nat \<Rightarrow> json \<Rightarrow> exc + json" where
  "get_consensus_data_with_pagination post n page =
     (case fetch_body post n page of
        Inl RequestException \<Rightarrow> Inr JNull
      | Inl ValueError \<Rightarrow> Inr JNull
      | Inl e \<Rightarrow> Inl e
      | Inr v \<Rightarrow> Inr v)"


section \<open>Paginator: \<^verbatim>\<open>get_all_consensus_data\<close>\<close>

text \<open>
  One pass through the body of \<^verbatim>\<open>while True\<close> (lines 150 to 180), from the accumulated
  items and the current page. It ends the loop by \<^verbatim>\<open>break\<close>, ends it by an exception, or
  goes round again with a new page.
\<close>

datatype step =
    Break "json list" json
  | Raise exc "json list"
  | Again "json list" json

definition loop_body :: "session_post \<Rightarrow> nat \<Rightarrow> json list \<Rightarrow> json \<Rightarrow> step" where
  "loop_body post n all_items page =
     (case get_consensus_data_with_pagination post n page of
        Inl e \<Rightarrow> Raise e all_items
      | Inr response_data \<Rightarrow>
          if response_data = JNull then Break all_items page
          else
            (case py_get response_data ''items'' (JList []) of
               Inl e \<Rightarrow> Raise e all_items
             | Inr items \<Rightarrow>
                 (case py_get response_data ''paging'' (JDict []) of
                    Inl e \<Rightarrow> Raise e all_items
                  | Inr paging \<Rightarrow>
                      if \<not> truthy items then Break all_items page
                      else
                        (case py_iter items of
                           Inl e \<Rightarrow> Raise e all_items
                         | Inr its \<Rightarrow>
                             (case py_get paging ''countItems'' (JInt (int (length its))) of
                                Inl e \<Rightarrow> Raise e (all_items @ its)
                              | Inr count_items \<Rightarrow>
                                  (case py_get paging ''nextPage'' (JInt 0) of
                                     Inl e \<Rightarrow> Raise e (all_items @ its)
                                   | Inr next_page \<Rightarrow>
                                       if next_page = JNull \<or> py_eq_zero next_page
                                       then Break (all_items @ its) page
                                       else
                                         (case py_gt next_page 100 of
                                            Inl e \<Rightarrow> Raise e (all_items @ its)
                                          | Inr True \<Rightarrow> Break (all_items @ its) next_page
                                          | Inr False \<Rightarrow> Again (all_items @ its) next_page)))))))"

text \<open>
  The loop. It has no bound of its own, so it is a partial function: \<open>None\<close> is a run
  that never leaves the loop. A finished loop gives the number of requests made, the
  accumulated items and the exception that ended it, if one did.
\<close>

partial_function (option)
  page_loop :: "session_post \<Rightarrow> nat \<Rightarrow> json list \<Rightarrow> json \<Rightarrow> (nat \<times> json list \<times> exc option) option"
where
  "page_loop post n all_items page =
     (case loop_body post n all_items page of
        Break items p \<Rightarrow> Some (Suc n, items, None)
      | Raise e items \<Rightarrow> Some (Suc n, items, Some e)
      | Again items p \<Rightarrow> page_loop post (Suc n) items p)"

text \<open>
  The method: \<^verbatim>\<open>all_items = []\<close>, \<^verbatim>\<open>page = 1\<close>, the loop, and the handler
  \<^verbatim>\<open>except Exception\<close>, which returns \<^verbatim>\<open>all_items if all_items else None\<close>. The result
  pairs the number of requests made with the value returned to the caller (\<open>None\<close> is
  Python's \<^verbatim>\<open>None\<close>); the outer \<open>None\<close> is a run that does not return.
\<close>

definition get_all_consensus_data :: "session_post \<Rightarrow> (nat \<times> json list option) option" where
  "get_all_consensus_data post =
     (case page_loop post 0 [] (JInt 1) of
        None \<Rightarrow> None
      | Some (n, all_items, None) \<Rightarrow> Some (n, Some all_items)
      | Some (n, all_items, Some e) \<Rightarrow> Some (n, if all_items \<noteq> [] then Some all_items else None))"


section \<open>Flattener: the records built by \<^verbatim>\<open>process_data\<close>\<close>

text \<open>
  A row under construction is a Python dictionary: an association list in insertion
  order. Assigning to a key that is present keeps its place, assigning to a new key
  appends it, which is \<open>AList.update\<close>. \<open>dict_get\<close> is \<^verbatim>\<open>d.get(k, default)\<close> on a
  dictionary.
\<close>

type_synonym row = "(string \<times> json) list"

abbreviation dict_get :: "(string \<times> json) list \<Rightarrow> string \<Rightarrow> json \<Rightarrow> json" where
  "dict_get kvs k d \<equiv> (case map_of kvs k of None \<Rightarrow> d | Some v \<Rightarrow> v)"

text \<open>
  Lines 31 to 46: the fields shared by all rows of a record. \<^verbatim>\<open>record.get\<close> and
  \<^verbatim>\<open>ext_opp.get\<close> raise \<^verbatim>\<open>AttributeError\<close> when the record, or what it holds under
  \<^verbatim>\<open>externalOpportunity\<close>, is no dictionary.
\<close>

definition demoboard_info :: "json \<Rightarrow> exc + row" where
  "demoboard_info record =
     (case record of
        JDict r \<Rightarrow>
          (case dict_get r ''externalOpportunity'' (JDict []) of
             JDict ext_opp \<Rightarrow>
               Inr [(''senddemoUuid'', dict_get r ''senddemoUuid'' (JStr '''')),
                    (''demoboardName'', dict_get r ''demoboardName'' (JStr '''')),
                    (''organization'', dict_get r ''organization'' (JStr '''')),
                    (''viewTime'', dict_get r ''viewTime'' (JInt 0)),
                    (''timeLastView'', dict_get r ''timeLastView'' (JStr '''')),
                    (''externalAccountId'', dict_get ext_opp ''externalAccountId'' (JStr '''')),
                    (''externalOpportunityId'',
                       dict_get ext_opp ''externalOpportunityId'' (JStr '''')),
                    (''externalAccountName'', dict_get ext_opp ''externalAccountName'' (JStr '''')),
                    (''externalOpportunityName'',
                       dict_get ext_opp ''externalOpportunityName'' (JStr ''''))]
           | _ \<Rightarrow> Inl AttributeError)
      | _ \<Rightarrow> Inl AttributeError)"

text \<open>Lines 53 to 60: the row for the id at index \<open>i\<close> of \<^verbatim>\<open>demoUuids\<close>.\<close>

definition demo_record :: "row \<Rightarrow> nat \<Rightarrow> json \<Rightarrow> row" where
  "demo_record info i demo_uuid =
     (if i = 0 then AList.update ''demoUuids'' demo_uuid info
      else AList.update ''demoUuids'' demo_uuid (AList.update ''senddemoUuid'' (JStr '''') info))"

text \<open>Lines 49 to 65: one row for each id, or one row with the fallback \<^verbatim>\<open>demoUuid\<close>.\<close>

definition expand :: "json \<Rightarrow> row \<Rightarrow> exc + row list" where
  "expand record info =
     (case py_get record ''demoUuids'' (JList []) of
        Inl e \<Rightarrow> Inl e
      | Inr demo_uuids \<Rightarrow>
          if truthy demo_uuids then
            (case py_iter demo_uuids of
               Inl e \<Rightarrow> Inl e
             | Inr ids \<Rightarrow>
                 Inr (map (\<lambda>(i, demo_uuid). demo_record info i demo_uuid) (enumerate 0 ids)))
          else
            (case py_get record ''demoUuid'' (JStr '''') of
               Inl e \<Rightarrow> Inl e
             | Inr v \<Rightarrow> Inr [AList.update ''demoUuids'' v info]))"

text \<open>The body of \<^verbatim>\<open>for record in data\<close>: the rows appended for one record.\<close>

definition flatten_record :: "json \<Rightarrow> exc + row list" where
  "flatten_record record =
     (case demoboard_info record of Inl e \<Rightarrow> Inl e | Inr info \<Rightarrow> expand record info)"

text \<open>
  The list \<^verbatim>\<open>processed_records\<close> after the loop of lines 29 to 65. An exception in any
  record leaves the loop, and the handler of line 76 discards every row.
\<close>

fun processed_records :: "json list \<Rightarrow> exc + row list" where
  "processed_records [] = Inr []"
| "processed_records (record # data) =
     (case flatten_record record of
        Inl e \<Rightarrow> Inl e
      | Inr rows \<Rightarrow>
          (case processed_records data of
             Inl e \<Rightarrow> Inl e
           | Inr others \<Rightarrow> Inr (rows @ others)))"


section \<open>Data frames and the projector: \<^verbatim>\<open>create_summary_csv\<close>\<close>

text \<open>
  A pandas data frame, as far as the code uses it: the column labels in order and the
  rows in order, each row holding one cell for each column. The cells are the Python
  objects of the records; \<open>JNull\<close> is a missing cell, \<^verbatim>\<open>None\<close> or NaN alike. The frames
  the code builds have distinct column labels.
\<close>

record dataframe =
  columns :: "string list"
  cells :: "json list list"

text \<open>\<^verbatim>\<open>pd.DataFrame()\<close>, and \<^verbatim>\<open>df.empty\<close>: true when either axis has length 0.\<close>

definition empty_frame :: dataframe where
  "empty_frame = \<lparr>columns = [], cells = []\<rparr>"

definition df_empty :: "dataframe \<Rightarrow> bool" where
  "df_empty df = (columns df = [] \<or> cells df = [])"

text \<open>The cell of a row under a column label.\<close>

fun position :: "string list \<Rightarrow> string \<Rightarrow> nat" where
  "position [] c = 0"
| "position (x # xs) c = (if x = c then 0 else Suc (position xs c))"

definition cell_of :: "dataframe \<Rightarrow> json list \<Rightarrow> string \<Rightarrow> json" where
  "cell_of df r c = r ! position (columns df) c"

text \<open>
  \<^verbatim>\<open>df[cols].copy()\<close> for labels \<open>cols\<close> that are all present, and
  \<^verbatim>\<open>df.rename(columns=mapping)\<close>, which leaves a label without an entry as it is.
\<close>

definition select_columns :: "dataframe \<Rightarrow> string list \<Rightarrow> dataframe" where
  "select_columns df cols =
     \<lparr>columns = cols, cells = map (\<lambda>r. map (cell_of df r) cols) (cells df)\<rparr>"

definition rename_columns :: "dataframe \<Rightarrow> (string \<times> string) list \<Rightarrow> dataframe" where
  "rename_columns df mapping =
     df\<lparr>columns := map (\<lambda>c. case map_of mapping c of None \<Rightarrow> c | Some c' \<Rightarrow> c') (columns df)\<rparr>"

text \<open>Lines 128 to 135 and 150 to 157.\<close>

definition summary_columns :: "string list" where
  "summary_columns = [''senddemoUuid'', ''demoUuids'', ''externalAccountId'',
     ''externalOpportunityId'', ''viewTime'', ''timeLastView'']"

definition column_mapping :: "(string \<times> string) list" where
  "column_mapping = [(''senddemoUuid'', ''Demoboard_ID''), (''demoUuids'', ''Demo_IDs''),
     (''externalAccountId'', ''Salesforce_External_AccountId''),
     (''externalOpportunityId'', ''Salesforce_External_OppId''),
     (''viewTime'', ''View_Time_Seconds''), (''timeLastView'', ''Demoboard_View_Date'')]"

text \<open>
  The method, lines 124 to 162. Nothing in the \<^verbatim>\<open>try\<close> block raises on a frame of this
  model, so the handler of line 164 has no branch here.
\<close>

definition create_summary_csv :: "dataframe \<Rightarrow> dataframe" where
  "create_summary_csv df =
     (if df_empty df then empty_frame
      else
        let available_columns = filter (\<lambda>col. col \<in> set (columns df)) summary_columns in
        if available_columns = [] then df
        else rename_columns (select_columns df available_columns) column_mapping)"


section \<open>The frame of the records and its clean-up: \<^verbatim>\<open>_clean_consensus_data\<close>\<close>

text \<open>
  The clean-up of \<^verbatim>\<open>process_data\<close> depends on the kind of each cell and on the dtype of
  each column, so the frames of this section hold typed cells: a missing value
  (\<^verbatim>\<open>None\<close> or NaN), an integer, a float or a string. The behaviour is that of pandas 2
  with its default options. Three restrictions keep the model exact. An integer cell
  is an integer that a float holds exactly, one of absolute value at most \<open>2^53\<close>: moving
  it into a float column does not round it, and a column of such integers is an int64
  column. A float is the rational number it denotes. Booleans, lists, dictionaries
  and the integers beyond \<open>2^53\<close> have no cell.
\<close>

typedef small = "{i::int. - 9007199254740992 \<le> i \<and> i \<le> 9007199254740992}"
  by (rule exI [of _ 0]) simp

datatype cell = Missing | Whole small | Frac rat | Text string

definition to_cell :: "json \<Rightarrow> cell option" where
  "to_cell v =
     (case v of
        JNull \<Rightarrow> Some Missing
      | JStr s \<Rightarrow> Some (Text s)
      | JFloat q \<Rightarrow> Some (Frac q)
      | JInt i \<Rightarrow>
          if - 9007199254740992 \<le> i \<and> i \<le> 9007199254740992 then Some (Whole (Abs_small i))
          else None
      | _ \<Rightarrow> None)"

record frame =
  labels :: "string list"
  entries :: "cell list list"

text \<open>\<^verbatim>\<open>pd.DataFrame()\<close>.\<close>

definition no_frame :: frame where
  "no_frame = \<lparr>labels = [], entries = []\<rparr>"

definition is_missing :: "cell \<Rightarrow> bool" where
  "is_missing v = (v = Missing)"

definition is_whole :: "cell \<Rightarrow> bool" where
  "is_whole v = (case v of Whole i \<Rightarrow> True | _ \<Rightarrow> False)"

definition is_frac :: "cell \<Rightarrow> bool" where
  "is_frac v = (case v of Frac q \<Rightarrow> True | _ \<Rightarrow> False)"

definition is_number :: "cell \<Rightarrow> bool" where
  "is_number v = (is_whole v \<or> is_frac v)"

definition is_text :: "cell \<Rightarrow> bool" where
  "is_text v = (case v of Text s \<Rightarrow> True | _ \<Rightarrow> False)"

text \<open>
  pandas keeps a dtype for each column. \<^verbatim>\<open>pd.DataFrame\<close> infers it from the values: a
  column that holds numbers and missing values only, and at least one number, is
  numeric (int64 when all its cells are integers, float64 otherwise, with the integers
  converted and the missing values NaN); every other column, a column of missing
  values only included, has the dtype \<^verbatim>\<open>object\<close> and keeps the Python objects.
  \<^verbatim>\<open>dropna\<close> and \<^verbatim>\<open>replace\<close> leave the dtype of a column as it is. The frames here
  have no dtype field: \<open>numeric\<close> reads the dtype off the cells, which gives the dtype
  that pandas keeps wherever the code consults it (lemmas \<open>numeric_kept\<close> and
  \<open>numeric_replaced\<close> below).
\<close>

definition numeric :: "cell list \<Rightarrow> bool" where
  "numeric xs = (list_all (\<lambda>v. is_number v \<or> is_missing v) xs \<and> list_ex is_number xs)"

definition float_column :: "cell list \<Rightarrow> bool" where
  "float_column xs = (numeric xs \<and> list_ex (\<lambda>v. is_missing v \<or> is_frac v) xs)"

definition as_float :: "cell \<Rightarrow> cell" where
  "as_float v = (case v of Whole i \<Rightarrow> Frac (of_int (Rep_small i)) | _ \<Rightarrow> v)"

text \<open>
  The cells of column \<open>j\<close>, and a cell-wise operation \<open>f\<close> applied in the columns that
  \<open>chosen\<close> selects, for rows of \<open>n\<close> cells.
\<close>

definition column :: "cell list list \<Rightarrow> nat \<Rightarrow> cell list" where
  "column rows j = map (\<lambda>r. r ! j) rows"

definition in_columns ::
    "(cell list \<Rightarrow> bool) \<Rightarrow> (cell \<Rightarrow> cell) \<Rightarrow> nat \<Rightarrow> cell list list \<Rightarrow> cell list list" where
  "in_columns chosen f n rows =
     map (\<lambda>r. map2 (\<lambda>j v. if chosen (column rows j) then f v else v) [0..<n] r) rows"

text \<open>
  Line 68, \<^verbatim>\<open>pd.DataFrame(processed_records)\<close>, for records that all have the same keys
  in the same order, as the records of the loop of \<^verbatim>\<open>process_data\<close> have: the keys are
  the column labels and each record is a row. The result is \<open>None\<close> where the model
  does not say what pandas does: on records with different keys and on values that
  have no cell.
\<close>

definition cells_of :: "row \<Rightarrow> cell list option" where
  "cells_of r = those (map (\<lambda>kv. to_cell (snd kv)) r)"

definition DataFrame :: "row list \<Rightarrow> frame option" where
  "DataFrame records =
     (case records of
        [] \<Rightarrow> Some no_frame
      | r # _ \<Rightarrow>
          (let cols = map fst r in
           if distinct cols \<and> list_all (\<lambda>r. map fst r = cols) records then
             (case those (map cells_of records) of
                None \<Rightarrow> None
              | Some raw \<Rightarrow>
                  Some \<lparr>labels = cols,
                        entries = in_columns float_column as_float (length cols) raw\<rparr>)
           else None))"

text \<open>Line 92, \<^verbatim>\<open>df.dropna(how='all')\<close>: the rows whose cells are all missing go.\<close>

definition dropna_all :: "frame \<Rightarrow> frame" where
  "dropna_all df = df\<lparr>entries := filter (\<lambda>r. \<not> list_all is_missing r) (entries df)\<rparr>"

text \<open>
  Line 95, \<^verbatim>\<open>df.replace(['null', 'None', None], '')\<close>. A numeric column can hold none of
  the three values to replace and none of its cells changes, so a NaN stays; in an
  \<^verbatim>\<open>object\<close> column the two strings and every missing cell become the empty string.
\<close>

definition sentinel_to_empty :: "cell \<Rightarrow> cell" where
  "sentinel_to_empty v = (if v \<in> set [Text ''null'', Text ''None'', Missing] then Text '''' else v)"

definition replace_sentinels :: "frame \<Rightarrow> frame" where
  "replace_sentinels df =
     df\<lparr>entries :=
          in_columns (\<lambda>xs. \<not> numeric xs) sentinel_to_empty (length (labels df)) (entries df)\<rparr>"

text \<open>
  Lines 98 to 102, for each \<^verbatim>\<open>object\<close> column: \<^verbatim>\<open>astype(str)\<close> prints every cell that is
  no string, \<^verbatim>\<open>str.strip()\<close> removes the leading and trailing whitespace, and the
  string \<^verbatim>\<open>nan\<close> becomes the empty string. \<open>py_isspace\<close> lists the characters below 256
  that Python counts as whitespace. How Python prints a number is the parameter
  \<open>str_of\<close>.
\<close>

definition py_isspace :: "char \<Rightarrow> bool" where
  "py_isspace c = (c \<in> set [CHR 0x09, CHR 0x0A, CHR 0x0B, CHR 0x0C, CHR 0x0D,
                             CHR 0x1C, CHR 0x1D, CHR 0x1E, CHR 0x1F, CHR 0x20,
                             CHR 0x85, CHR 0xA0])"

definition strip :: "string \<Rightarrow> string" where
  "strip s = rev (dropWhile py_isspace (rev (dropWhile py_isspace s)))"

definition tidy :: "(cell \<Rightarrow> string) \<Rightarrow> cell \<Rightarrow> cell" where
  "tidy str_of v =
     (let t = strip (case v of Text s \<Rightarrow> s | _ \<Rightarrow> str_of v)
      in Text (if t = ''nan'' then '''' else t))"

definition tidy_columns :: "(cell \<Rightarrow> string) \<Rightarrow> frame \<Rightarrow> frame" where
  "tidy_columns str_of df =
     df\<lparr>entries :=
          in_columns (\<lambda>xs. \<not> numeric xs) (tidy str_of) (length (labels df)) (entries df)\<rparr>"

text \<open>
  Lines 105 to 108, \<^verbatim>\<open>pd.to_numeric(df[col], errors='coerce')\<close> on the column
  \<^verbatim>\<open>viewTime\<close>: a number stays, a string becomes the number it reads as, and NaN when it
  reads as none; the column is int64 when every cell is an integer, float64 otherwise.
  How pandas reads a string is the parameter \<open>parse\<close>, which gives a number or anything
  else for a string that is none.
\<close>

definition read_number :: "(string \<Rightarrow> cell) \<Rightarrow> cell \<Rightarrow> cell" where
  "read_number parse v =
     (case v of Text s \<Rightarrow> (if is_number (parse s) then parse s else Missing) | _ \<Rightarrow> v)"

definition to_numeric :: "(string \<Rightarrow> cell) \<Rightarrow> cell list \<Rightarrow> cell list" where
  "to_numeric parse xs =
     (let ys = map (read_number parse) xs
      in if list_all is_whole ys then ys else map as_float ys)"

definition numeric_columns :: "string list" where
  "numeric_columns = [''viewTime'']"

definition coerce_numeric :: "(string \<Rightarrow> cell) \<Rightarrow> frame \<Rightarrow> frame" where
  "coerce_numeric parse df =
     df\<lparr>entries :=
          map (\<lambda>i. map (\<lambda>j. if labels df ! j \<in> set numeric_columns
                              then to_numeric parse (column (entries df) j) ! i
                              else entries df ! i ! j)
                       [0..<length (entries df ! i)])
              [0..<length (entries df)]\<rparr>"

text \<open>The method, lines 81 to 110.\<close>

definition clean_consensus_data :: "(cell \<Rightarrow> string) \<Rightarrow> (string \<Rightarrow> cell) \<Rightarrow> frame \<Rightarrow> frame" where
  "clean_consensus_data str_of parse df =
     coerce_numeric parse (tidy_columns str_of (replace_sentinels (dropna_all df)))"

text \<open>
  \<^verbatim>\<open>process_data\<close>, lines 21 to 78: the empty frame for no data and, through the handler
  of line 76, for an exception in the loop; otherwise the cleaned frame of the records.
  The result is \<open>None\<close> where \<open>DataFrame\<close> is.
\<close>

definition process_data :: "(cell \<Rightarrow> string) \<Rightarrow> (string \<Rightarrow> cell) \<Rightarrow> json list \<Rightarrow> frame option" where
  "process_data str_of parse data =
     (if data = [] then Some no_frame
      else
        (case processed_records data of
           Inl e \<Rightarrow> Some no_frame
         | Inr records \<Rightarrow> map_option (clean_consensus_data str_of parse) (DataFrame records)))"


section \<open>Describing a run of the paginator\<close>

text \<open>
  A well-formed page, as the specification's data model has it: the item list and the
  reported \<^verbatim>\<open>nextPage\<close>, \<open>None\<close> when the key, or the whole \<^verbatim>\<open>paging\<close> mapping, is
  absent or null. \<open>page_view\<close> reads a page off the value the transport returned.
\<close>

datatype page = Page (items: "json list") (next_page: "int option")

definition page_view :: "json \<Rightarrow> page option" where
  "page_view d =
     (case d of
        JDict kvs \<Rightarrow>
          (case map_of kvs ''items'' of
             Some (JList its) \<Rightarrow>
               (case map_of kvs ''paging'' of
                  None \<Rightarrow> Some (Page its None)
                | Some (JDict pg) \<Rightarrow>
                    (case map_of pg ''nextPage'' of
                       None \<Rightarrow> Some (Page its None)
                     | Some JNull \<Rightarrow> Some (Page its None)
                     | Some (JInt i) \<Rightarrow> Some (Page its (Some i))
                     | Some _ \<Rightarrow> None)
                | Some _ \<Rightarrow> None)
           | _ \<Rightarrow> None)
      | _ \<Rightarrow> None)"

text \<open>
  \<open>served post n pg ps\<close>: request number \<open>n\<close>, for page \<open>pg\<close>, is answered with the first
  page of \<open>ps\<close>, the next request, for the page that one names, with the second, and so
  on along the cursor.
\<close>

fun served :: "session_post \<Rightarrow> nat \<Rightarrow> json \<Rightarrow> page list \<Rightarrow> bool" where
  "served post n pg [] = True"
| "served post n pg (p # ps) =
     (case get_consensus_data_with_pagination post n pg of
        Inl e \<Rightarrow> False
      | Inr d \<Rightarrow>
          page_view d = Some p \<and>
          (case next_page p of
             Some i \<Rightarrow> served post (Suc n) (JInt i) ps
           | None \<Rightarrow> ps = []))"

text \<open>
  A page after which the loop goes round again: it has items, and its \<^verbatim>\<open>nextPage\<close> is
  an integer other than 0 that does not exceed the limit of line 178.
\<close>

definition continues :: "page \<Rightarrow> bool" where
  "continues p =
     (items p \<noteq> [] \<and> (case next_page p of Some i \<Rightarrow> i \<noteq> 0 \<and> i \<le> 100 | None \<Rightarrow> False))"

text \<open>The page asked for after the pages \<open>ps\<close>, when the first request was for \<open>pg\<close>.\<close>

definition cursor_from :: "json \<Rightarrow> page list \<Rightarrow> json" where
  "cursor_from pg ps =
     (if ps = [] then pg else case next_page (last ps) of Some i \<Rightarrow> JInt i | None \<Rightarrow> JNull)"

text \<open>
  The shape the specification expects of a response body: a mapping with a mapping
  under \<^verbatim>\<open>data\<close> that holds a sequence under \<^verbatim>\<open>items\<close> and a mapping under \<^verbatim>\<open>paging\<close>.
\<close>

definition expected_shape :: "json \<Rightarrow> bool" where
  "expected_shape j =
     (case j of
        JDict kvs \<Rightarrow>
          (case map_of kvs ''data'' of
             Some (JDict d) \<Rightarrow>
               (case map_of d ''items'' of
                  Some (JList its) \<Rightarrow>
                    (case map_of d ''paging'' of Some (JDict pg) \<Rightarrow> True | _ \<Rightarrow> False)
                | _ \<Rightarrow> False)
           | _ \<Rightarrow> False)
      | _ \<Rightarrow> False)"

text \<open>
  Servers for concrete runs. \<open>page_body\<close> is a response body of the documented shape;
  \<open>script_server\<close> answers each page number from a table and refuses the connection for
  any other request.
\<close>

definition page_body :: "int \<Rightarrow> json list \<Rightarrow> int \<Rightarrow> json" where
  "page_body p its nxt =
     JDict [(''data'',
       JDict [(''items'', JList its),
              (''paging'', JDict [(''page'', JInt p), (''countItems'', JInt (int (length its))),
                                  (''nextPage'', JInt nxt), (''limit'', JInt 500)])])]"

definition ok_response :: "json \<Rightarrow> exc + response" where
  "ok_response j = Inr \<lparr>status_code = 200, body = Some j\<rparr>"

definition script_server :: "(int \<times> (exc + response)) list \<Rightarrow> session_post" where
  "script_server tbl n pg =
     (case pg of
        JInt p \<Rightarrow> (case map_of tbl p of Some r \<Rightarrow> r | None \<Rightarrow> Inl RequestException)
      | _ \<Rightarrow> Inl RequestException)"

text \<open>A server whose every answer holds one item and names page 1 as the next page.\<close>

definition cyclic_server :: session_post where
  "cyclic_server n pg = ok_response (page_body 1 [JStr ''r''] 1)"

text \<open>Two pages, the second one the last.\<close>

definition two_pages :: session_post where
  "two_pages = script_server [(1, ok_response (page_body 1 [JStr ''a'', JStr ''b''] 2)),
                          (2, ok_response (page_body 2 [JStr ''c''] 0))]"

text \<open>
  A server with the pages 1 to \<open>final\<close>: page \<open>p\<close> holds the one item \<open>p\<close> and names
  \<open>p + 1\<close> as the next page, the final page names 0. \<open>numbered_pages\<close> are its pages
  in order.
\<close>

definition numbered_page :: "int \<Rightarrow> int \<Rightarrow> page" where
  "numbered_page final p = Page [JInt p] (Some (if p = final then 0 else p + 1))"

definition numbered_pages :: "int \<Rightarrow> page list" where
  "numbered_pages final = map (numbered_page final) [1..final]"

definition numbered_server :: "int \<Rightarrow> session_post" where
  "numbered_server final n pg =
     (case pg of
        JInt p \<Rightarrow>
          if 1 \<le> p \<and> p \<le> final
          then ok_response (page_body p [JInt p] (if p = final then 0 else p + 1))
          else Inl RequestException
      | _ \<Rightarrow> Inl RequestException)"

text \<open>A first page that names page 500 as the next one; page 500 is the last.\<close>

definition jump_server :: session_post where
  "jump_server = script_server [(1, ok_response (page_body 1 [JStr ''a''] 500)),
                          (500, ok_response (page_body 500 [JStr ''b''] 0))]"

text \<open>
  \<open>flaky_server\<close> serves page 1 and refuses the connection for page 2;
  \<open>steady_server\<close> serves the same page 1 as its only and last page.
\<close>

definition flaky_server :: session_post where
  "flaky_server = script_server [(1, ok_response (page_body 1 [JStr ''a''] 2)),
                          (2, Inl RequestException)]"

definition steady_server :: session_post where
  "steady_server = script_server [(1, ok_response (page_body 1 [JStr ''a''] 0))]"


section \<open>Describing records\<close>








section \<open>Describing frames\<close>

text \<open>The exported name of a source column, by the rename table.\<close>

definition exported_name :: "string \<Rightarrow> string" where
  "exported_name c = (case map_of column_mapping c of None \<Rightarrow> c | Some c' \<Rightarrow> c')"

text \<open>
  Frames for concrete runs: one with the six source columns among others, in an order
  of its own; one with none of them; one with two of them; and the last two with their
  rows taken away.
\<close>

definition full_frame :: dataframe where
  "full_frame = \<lparr>columns = [''timeLastView'', ''senddemoUuid'', ''demoboardName'', ''viewTime'',
       ''externalAccountId'', ''externalOpportunityId'', ''demoUuids''],
     cells = [[JStr ''2025-01-01'', JStr ''A1'', JStr ''Board'', JInt 42, JStr ''X'', JStr ''O'',
                JStr ''d1''],
              [JStr ''2025-01-01'', JStr '''', JStr ''Board'', JInt 42, JStr ''X'', JStr ''O'',
                JStr ''d2'']]\<rparr>"

definition foreign_frame :: dataframe where
  "foreign_frame = \<lparr>columns = [''foo''], cells = [[JInt 1], [JInt 2]]\<rparr>"

definition partial_frame :: dataframe where
  "partial_frame = \<lparr>columns = [''viewTime'', ''foo'', ''senddemoUuid''],
     cells = [[JInt 42, JStr ''x'', JStr ''A1''], [JInt 7, JStr ''y'', JStr '''']]\<rparr>"

definition headers_only :: dataframe where
  "headers_only = \<lparr>columns = [''foo''], cells = []\<rparr>"

definition partial_headers :: dataframe where
  "partial_headers = \<lparr>columns = [''viewTime'', ''foo'', ''senddemoUuid''], cells = []\<rparr>"

text \<open>
  For the clean-up: a frame is rectangular when every row has one cell for each column;
  \<open>kept_rows\<close> are the rows with a cell that is not missing. \<open>trimmed\<close> is what lines
  101 and 102 make of a string, \<open>normal_form\<close> what lines 95 to 102 make of it, and
  \<open>as_text\<close> what they make of any cell of an \<^verbatim>\<open>object\<close> column. \<open>value_of\<close> is the value
  of a number cell, whether integer or float.
\<close>

definition rectangular :: "frame \<Rightarrow> bool" where
  "rectangular df = list_all (\<lambda>r. length r = length (labels df)) (entries df)"

definition kept_rows :: "frame \<Rightarrow> cell list list" where
  "kept_rows df = filter (\<lambda>r. \<not> list_all is_missing r) (entries df)"

definition trimmed :: "string \<Rightarrow> string" where
  "trimmed s = (let t = strip s in if t = ''nan'' then '''' else t)"

definition normal_form :: "string \<Rightarrow> string" where
  "normal_form s = (if s = ''null'' \<or> s = ''None'' then '''' else trimmed s)"

definition as_text :: "(cell \<Rightarrow> string) \<Rightarrow> cell \<Rightarrow> string" where
  "as_text str_of v =
     (case v of Text s \<Rightarrow> normal_form s | Missing \<Rightarrow> '''' | _ \<Rightarrow> trimmed (str_of v))"

definition value_of :: "cell \<Rightarrow> rat option" where
  "value_of v =
     (case v of Whole i \<Rightarrow> Some (of_int (Rep_small i)) | Frac q \<Rightarrow> Some q | _ \<Rightarrow> None)"

text \<open>
  What a string field of a record becomes in the frame, and the two columns that tell
  the rows of a record apart: the cells under \<^verbatim>\<open>senddemoUuid\<close> and \<^verbatim>\<open>demoUuids\<close> of each
  row, in row order.
\<close>

definition flat_text :: "json \<Rightarrow> string" where
  "flat_text v = (case v of JStr s \<Rightarrow> normal_form s | _ \<Rightarrow> '''')"

definition sessions :: "frame \<Rightarrow> (cell \<times> cell) list" where
  "sessions df =
     map (\<lambda>r. (r ! position (labels df) ''senddemoUuid'', r ! position (labels df) ''demoUuids''))
       (entries df)"

text \<open>
  Parameters and records for concrete runs of the clean-up: \<open>toy_str\<close> prints the
  integer 5, \<open>toy_parse\<close> reads the numerals 5 and 42 and nothing else.
\<close>

definition toy_str :: "cell \<Rightarrow> string" where
  "toy_str v = (if v = Whole (Abs_small 5) then ''5'' else ''?'')"

definition toy_parse :: "string \<Rightarrow> cell" where
  "toy_parse s =
     (if s = ''5'' then Whole (Abs_small 5)
      else if s = ''42'' then Whole (Abs_small 42) else Missing)"

definition wordy_records :: "row list" where
  "wordy_records =
     [[(''senddemoUuid'', JStr '' A1 ''), (''viewTime'', JStr ''abc'')],
      [(''senddemoUuid'', JNull), (''viewTime'', JNull)],
      [(''senddemoUuid'', JStr ''None''), (''viewTime'', JStr '' 42 '')],
      [(''senddemoUuid'', JStr ''d 1''), (''viewTime'', JInt 5)]]"

definition gappy_records :: "row list" where
  "gappy_records =
     [[(''senddemoUuid'', JStr ''A1''), (''organization'', JInt 3), (''viewTime'', JInt 42)],
      [(''senddemoUuid'', JStr ''null''), (''organization'', JNull), (''viewTime'', JNull)],
      [(''senddemoUuid'', JStr '' nan ''), (''organization'', JInt 4), (''viewTime'', JInt 7)]]"


section \<open>Properties of the transport and the paginator\<close>

lemma loop_body_failed:
  "get_consensus_data_with_pagination post n pg = Inr JNull \<Longrightarrow>
   loop_body post n acc pg = Break acc pg"
  by (simp add: loop_body_def)

lemma loop_body_page:
  assumes "get_consensus_data_with_pagination post n pg = Inr d" and "page_view d = Some p"
  shows "loop_body post n acc pg =
     (if items p = [] then Break acc pg
      else case next_page p of
             None \<Rightarrow> Break (acc @ items p) pg
           | Some i \<Rightarrow>
               if i = 0 then Break (acc @ items p) pg
               else if i > 100 then Break (acc @ items p) (JInt i)
               else Again (acc @ items p) (JInt i))"
  using assms
  by (auto simp: loop_body_def page_view_def split: json.splits option.splits)

text \<open>Pages that all continue are consumed one after the other, in order.\<close>

lemma page_loop_prefix:
  "served post n pg (ps @ rest) \<Longrightarrow> \<forall>p \<in> set ps. continues p \<Longrightarrow>
   page_loop post n acc pg =
     page_loop post (n + length ps) (acc @ concat (map items ps)) (cursor_from pg ps)
   \<and> served post (n + length ps) (cursor_from pg ps) rest"
proof (induction ps arbitrary: n pg acc)
  case Nil
  then show ?case by (simp add: cursor_from_def)
next
  case (Cons p ps)
  from Cons.prems(2) obtain i
    where p: "items p \<noteq> []" "next_page p = Some i" "i \<noteq> 0" "i \<le> 100"
    by (auto simp: continues_def split: option.splits)
  from Cons.prems(1) p obtain d
    where d: "get_consensus_data_with_pagination post n pg = Inr d" "page_view d = Some p"
      and rest: "served post (Suc n) (JInt i) (ps @ rest)"
    by (auto split: sum.splits)
  have step: "loop_body post n acc pg = Again (acc @ items p) (JInt i)"
    using loop_body_page [OF d] p by simp
  have cur: "cursor_from pg (p # ps) = cursor_from (JInt i) ps"
    using p by (simp add: cursor_from_def)
  have "page_loop post n acc pg = page_loop post (Suc n) (acc @ items p) (JInt i)"
    by (subst page_loop.simps) (simp add: step)
  with Cons.IH [OF rest, of "acc @ items p"] Cons.prems(2) cur show ?case by simp
qed

text \<open>A server on which every pass goes round again keeps the loop running for ever.\<close>

lemma page_loop_diverges:
  assumes "\<And>n acc pg. \<exists>acc' pg'. loop_body post n acc pg = Again acc' pg'"
  shows "page_loop post n acc pg = None"
proof -
  have "post' \<noteq> post" if "page_loop post' n acc pg = Some y" for post' y
  proof (rule page_loop.raw_induct [where P = "\<lambda>p n acc pg y. p \<noteq> post", OF _ that], goal_cases)
    case (1 f p n acc pg y)
    show ?case
    proof
      assume "p = post"
      with assms [of n acc pg] 1(2) obtain acc' pg' where "f post (Suc n) acc' pg' = Some y"
        by auto
      with 1(1) show False by blast
    qed
  qed
  then show ?thesis by (cases "page_loop post n acc pg") auto
qed

lemma transport_script_ok:
  "get_consensus_data_with_pagination (script_server tbl) n (JInt p) =
     (case map_of tbl p of
        None \<Rightarrow> Inr JNull
      | Some r \<Rightarrow> get_consensus_data_with_pagination (\<lambda>n pg. r) 0 JNull)"
  by (simp add: get_consensus_data_with_pagination_def fetch_body_def script_server_def
      split: option.splits)

lemma transport_page_body:
  "get_consensus_data_with_pagination (\<lambda>n pg. ok_response (page_body p its nxt)) m q =
     Inr (JDict [(''items'', JList its),
              (''paging'', JDict [(''page'', JInt p), (''countItems'', JInt (int (length its))),
                                  (''nextPage'', JInt nxt), (''limit'', JInt 500)])])"
  by (simp add: get_consensus_data_with_pagination_def fetch_body_def ok_response_def
      page_body_def raise_for_status_def response_json_def)

lemma page_view_page_body:
  "page_view (JDict [(''items'', JList its),
              (''paging'', JDict [(''page'', JInt p), (''countItems'', JInt c),
                                  (''nextPage'', JInt nxt), (''limit'', JInt l)])])
   = Some (Page its (Some nxt))"
  by (simp add: page_view_def)

lemmas run_defs =
  get_all_consensus_data_def loop_body_def get_consensus_data_with_pagination_def fetch_body_def
  raise_for_status_def response_json_def script_server_def ok_response_def page_body_def

lemma loop_body_page_body:
  "loop_body (\<lambda>n pg. ok_response (page_body p its nxt)) n acc pg =
     (if its = [] then Break acc pg
      else if nxt = 0 then Break (acc @ its) pg
      else if nxt > 100 then Break (acc @ its) (JInt nxt)
      else Again (acc @ its) (JInt nxt))"
  by (simp add: run_defs)

lemma numbered_page_sel:
  "items (numbered_page final p) = [JInt p]"
  "next_page (numbered_page final p) = Some (if p = final then 0 else p + 1)"
  by (simp_all add: numbered_page_def)

lemma transport_numbered:
  "1 \<le> p \<Longrightarrow> p \<le> final \<Longrightarrow>
   \<exists>d. get_consensus_data_with_pagination (numbered_server final) n (JInt p) = Inr d \<and>
       page_view d = Some (numbered_page final p)"
  by (simp add: numbered_server_def numbered_page_def page_view_def run_defs)

lemma served_numbered:
  "1 \<le> a \<Longrightarrow> b \<le> final \<Longrightarrow>
   served (numbered_server final) n (JInt a) (map (numbered_page final) [a..b])"
proof (induction a b arbitrary: n rule: upto.induct)
  case (1 a b)
  show ?case
  proof (cases "a \<le> b")
    case False
    then show ?thesis by simp
  next
    case True
    then have up: "[a..b] = a # [a + 1..b]" by (simp add: upto_rec1)
    from transport_numbered [of a final n] True 1(2,3) obtain d
      where d: "get_consensus_data_with_pagination (numbered_server final) n (JInt a) = Inr d"
        "page_view d = Some (numbered_page final a)" by auto
    show ?thesis
    proof (cases "a = final")
      case True
      with \<open>b \<le> final\<close> have "[a + 1..b] = []" by simp
      with d up True show ?thesis by (simp add: numbered_page_sel)
    next
      case False
      from 1(1) [OF True, of "Suc n"] 1(2,3) True
      have "served (numbered_server final) (Suc n) (JInt (a + 1)) (map (numbered_page final) [a + 1..b])"
        by simp
      with d up False show ?thesis by (simp add: numbered_page_sel)
    qed
  qed
qed

lemma items_numbered: "concat (map items (map (numbered_page final) xs)) = map JInt xs"
  by (induction xs) (simp_all add: numbered_page_sel)

text \<open>
  Against a server that numbers more than 100 pages consecutively, the run ends after
  exactly 100 requests, when page 100 names page 101.
\<close>

lemma numbered_stops_at_100:
  assumes "100 < final"
  shows "get_all_consensus_data (numbered_server final) = Some (100, Some (map JInt [1..100]))"
proof -
  let ?ps = "map (numbered_page final) [1..99]"
  have split: "[1..100] = [1..99] @ [100::int]"
    using upto_rec2 [of 1 100] by simp
  have "served (numbered_server final) 0 (JInt 1) (map (numbered_page final) [1..100])"
    using assms by (intro served_numbered) simp_all
  then have s: "served (numbered_server final) 0 (JInt 1) (?ps @ [numbered_page final 100])"
    by (simp add: split)
  have c: "\<forall>q \<in> set ?ps. continues q"
    using assms by (auto simp: continues_def numbered_page_sel)
  have len: "length ?ps = 99" by simp
  have "List.last ?ps = numbered_page final 99"
    using upto_rec2 [of 1 99] by simp
  then have cur: "cursor_from (JInt 1) ?ps = JInt 100"
    using assms by (simp add: cursor_from_def numbered_page_sel)
  from page_loop_prefix [OF s c, of "[]"]
  have run: "page_loop (numbered_server final) 0 [] (JInt 1) =
      page_loop (numbered_server final) 99 (map JInt [1..99]) (JInt 100)"
    and "served (numbered_server final) 99 (JInt 100) [numbered_page final 100]"
    by (simp_all only: len cur items_numbered append_Nil add_0)
  then obtain d
    where d: "get_consensus_data_with_pagination (numbered_server final) 99 (JInt 100) = Inr d"
      "page_view d = Some (numbered_page final 100)"
    by (auto split: sum.splits)
  have "loop_body (numbered_server final) 99 (map JInt [1..99]) (JInt 100) =
      Break (map JInt [1..99] @ [JInt 100]) (JInt 101)"
    using loop_body_page [OF d] assms by (simp add: numbered_page_sel)
  then have "page_loop (numbered_server final) 99 (map JInt [1..99]) (JInt 100) =
      Some (100, map JInt [1..100], None)"
    by (subst page_loop.simps) (simp add: split)
  with run show ?thesis by (simp add: get_all_consensus_data_def)
qed


text \<open>
  C6. When the run reaches a successful page whose item list is empty, the paginator
  stops there, whatever next page that page names, and returns the items of the earlier
  pages only; when the empty page is the first one, it returns the empty list.
\<close>

theorem empty_page_stops:
  assumes "served post 0 (JInt 1) (ps @ [p])"
    and "\<forall>q \<in> set ps. continues q"
    and "items p = []"
  shows "get_all_consensus_data post = Some (Suc (length ps), Some (concat (map items ps)))"
proof -
  from page_loop_prefix [OF assms(1,2), of "[]"]
  have run: "page_loop post 0 [] (JInt 1) =
      page_loop post (length ps) (concat (map items ps)) (cursor_from (JInt 1) ps)"
    and last: "served post (length ps) (cursor_from (JInt 1) ps) [p]"
    by simp_all
  from last obtain d
    where d: "get_consensus_data_with_pagination post (length ps) (cursor_from (JInt 1) ps) = Inr d"
      "page_view d = Some p"
    by (auto split: sum.splits)
  have "loop_body post (length ps) (concat (map items ps)) (cursor_from (JInt 1) ps) =
      Break (concat (map items ps)) (cursor_from (JInt 1) ps)"
    using loop_body_page [OF d] assms(3) by simp
  then have "page_loop post (length ps) (concat (map items ps)) (cursor_from (JInt 1) ps) =
      Some (Suc (length ps), concat (map items ps), None)"
    by (subst page_loop.simps) simp
  with run show ?thesis by (simp add: get_all_consensus_data_def)
qed

theorem empty_page_stops_witness:
  "served (script_server [(1, ok_response (page_body 1 [JStr ''a''] 2)),
                          (2, ok_response (page_body 2 [] 3))]) 0 (JInt 1)
     ([Page [JStr ''a''] (Some 2)] @ [Page [] (Some 3)])
   \<and> continues (Page [JStr ''a''] (Some 2))
   \<and> get_all_consensus_data (script_server [(1, ok_response (page_body 1 [JStr ''a''] 2)),
                          (2, ok_response (page_body 2 [] 3))]) = Some (2, Some [JStr ''a''])"
proof -
  let ?post = "script_server [(1, ok_response (page_body 1 [JStr ''a''] 2)),
                          (2, ok_response (page_body 2 [] 3))]"
  have s: "served ?post 0 (JInt 1) ([Page [JStr ''a''] (Some 2)] @ [Page [] (Some 3)])"
    by (simp add: transport_script_ok transport_page_body page_view_page_body)
  have c: "\<forall>q \<in> set [Page [JStr ''a''] (Some 2)]. continues q"
    by (simp add: continues_def)
  from empty_page_stops [OF s c] s c show ?thesis by simp
qed

text \<open>
  C5, as amended. Pages 1 to k, with k at most 100, are served along the cursor, each
  with at least one item; every page before page k names a next page that is an integer
  other than 0 and at most 100; page k is the first to report \<^verbatim>\<open>nextPage\<close> 0 or none
  at all. Then the paginator makes exactly k requests and returns the items of the k
  pages, concatenated in the order of arrival.
\<close>

theorem last_page_stops:
  assumes "served post 0 (JInt 1) (ps @ [p])"
    and "\<forall>q \<in> set ps. continues q"
    and "items p \<noteq> []"
    and "next_page p = None \<or> next_page p = Some 0"
    and "length (ps @ [p]) \<le> 100"
  shows "get_all_consensus_data post =
     Some (length (ps @ [p]), Some (concat (map items (ps @ [p]))))"
proof -
  from page_loop_prefix [OF assms(1,2), of "[]"]
  have run: "page_loop post 0 [] (JInt 1) =
      page_loop post (length ps) (concat (map items ps)) (cursor_from (JInt 1) ps)"
    and last: "served post (length ps) (cursor_from (JInt 1) ps) [p]"
    by simp_all
  from last obtain d
    where d: "get_consensus_data_with_pagination post (length ps) (cursor_from (JInt 1) ps) = Inr d"
      "page_view d = Some p"
    by (auto split: sum.splits)
  have "loop_body post (length ps) (concat (map items ps)) (cursor_from (JInt 1) ps) =
      Break (concat (map items ps) @ items p) (cursor_from (JInt 1) ps)"
    using loop_body_page [OF d] assms(3,4) by auto
  then have "page_loop post (length ps) (concat (map items ps)) (cursor_from (JInt 1) ps) =
      Some (Suc (length ps), concat (map items ps) @ items p, None)"
    by (subst page_loop.simps) simp
  with run show ?thesis by (simp add: get_all_consensus_data_def)
qed

theorem last_page_stops_witness:
  "served two_pages 0 (JInt 1)
     ([Page [JStr ''a'', JStr ''b''] (Some 2)] @ [Page [JStr ''c''] (Some 0)])
   \<and> continues (Page [JStr ''a'', JStr ''b''] (Some 2))
   \<and> get_all_consensus_data two_pages = Some (2, Some [JStr ''a'', JStr ''b'', JStr ''c''])"
proof -
  have s: "served two_pages 0 (JInt 1)
      ([Page [JStr ''a'', JStr ''b''] (Some 2)] @ [Page [JStr ''c''] (Some 0)])"
    by (simp add: two_pages_def transport_script_ok transport_page_body page_view_page_body)
  have c: "\<forall>q \<in> set [Page [JStr ''a'', JStr ''b''] (Some 2)]. continues q"
    by (simp add: continues_def)
  from last_page_stops [OF s c] s c show ?thesis by simp
qed

text \<open>
  C5 as stated fails: \<open>numbered_server 101\<close> serves 101 pages of one item each, and page
  101 is the first to report \<^verbatim>\<open>nextPage\<close> 0, so k is 101; the paginator makes 100
  requests and returns the items of the first 100 pages, because page 100 names page 101,
  which exceeds the limit of line 178.
\<close>

theorem bound_counterexample:
  "served (numbered_server 101) 0 (JInt 1) (numbered_pages 101)
   \<and> length (numbered_pages 101) = 101
   \<and> get_all_consensus_data (numbered_server 101) = Some (100, Some (map JInt [1..100]))
   \<and> get_all_consensus_data (numbered_server 101) \<noteq> Some (101, Some (map JInt [1..101]))"
proof -
  have "served (numbered_server 101) 0 (JInt 1) (numbered_pages 101)"
    unfolding numbered_pages_def by (intro served_numbered) simp_all
  moreover have "length (numbered_pages 101) = 101"
    by (simp add: numbered_pages_def)
  ultimately show ?thesis using numbered_stops_at_100 [of 101] by simp
qed

text \<open>
  A cursor that jumps beyond 100 ends the run at once: page 1 names page 500, and the
  paginator returns after one request with the items of page 1.
\<close>

lemma jump_stops_early:
  "get_all_consensus_data jump_server = Some (1, Some [JStr ''a''])"
  by (simp add: jump_server_def page_loop.simps run_defs)

text \<open>
  C1, evaluated at a cyclic cursor. Every answer of \<open>cyclic_server\<close> is a successful page
  with one item and the positive \<^verbatim>\<open>nextPage\<close> 1. The test \<^verbatim>\<open>page > 100\<close> of line 178
  looks at the page number, which stays 1, so the loop is never left: the call does not
  return.
\<close>

theorem cyclic_never_returns: "get_all_consensus_data cyclic_server = None"
proof -
  have "loop_body cyclic_server n acc pg = Again (acc @ [JStr ''r'']) (JInt 1)" for n acc pg
    using loop_body_page_body [of 1 "[JStr ''r'']" 1 n acc pg]
    by (simp add: cyclic_server_def [abs_def])
  then have "page_loop cyclic_server 0 [] (JInt 1) = None"
    by (intro page_loop_diverges) simp
  then show ?thesis by (simp add: get_all_consensus_data_def)
qed

text \<open>
  C2, as amended. When pages 1 to k-1 were fetched along the cursor, each one continuing,
  and the transport fails on the next request, the paginator stops there and returns the
  concatenation of the items of pages 1 to k-1. The value is that list alone: nothing in
  it records the failure.
\<close>

theorem failure_returns_partial:
  assumes "served post 0 (JInt 1) ps"
    and "\<forall>q \<in> set ps. continues q"
    and "get_consensus_data_with_pagination post (length ps) (cursor_from (JInt 1) ps) = Inr JNull"
  shows "get_all_consensus_data post = Some (Suc (length ps), Some (concat (map items ps)))"
proof -
  from page_loop_prefix [of post 0 "JInt 1" ps "[]" "[]"] assms(1,2)
  have run: "page_loop post 0 [] (JInt 1) =
      page_loop post (length ps) (concat (map items ps)) (cursor_from (JInt 1) ps)"
    by simp
  have "page_loop post (length ps) (concat (map items ps)) (cursor_from (JInt 1) ps) =
      Some (Suc (length ps), concat (map items ps), None)"
    by (subst page_loop.simps) (simp add: loop_body_failed [OF assms(3)])
  with run show ?thesis by (simp add: get_all_consensus_data_def)
qed

theorem failure_returns_partial_witness:
  "served flaky_server 0 (JInt 1) [Page [JStr ''a''] (Some 2)]
   \<and> continues (Page [JStr ''a''] (Some 2))
   \<and> get_consensus_data_with_pagination flaky_server 1 (JInt 2) = Inr JNull
   \<and> get_all_consensus_data flaky_server = Some (2, Some [JStr ''a''])"
proof -
  have s: "served flaky_server 0 (JInt 1) [Page [JStr ''a''] (Some 2)]"
    by (simp add: flaky_server_def transport_script_ok transport_page_body page_view_page_body)
  have c: "\<forall>q \<in> set [Page [JStr ''a''] (Some 2)]. continues q"
    by (simp add: continues_def)
  have f: "get_consensus_data_with_pagination flaky_server
      (length [Page [JStr ''a''] (Some 2)]) (cursor_from (JInt 1) [Page [JStr ''a''] (Some 2)])
      = Inr JNull"
    by (simp add: flaky_server_def cursor_from_def run_defs)
  from failure_returns_partial [OF s c f] s c f show ?thesis by (simp add: cursor_from_def)
qed

text \<open>
  C2 as stated fails: the run against \<open>flaky_server\<close>, whose second request fails, and
  the run against \<open>steady_server\<close>, which ends normally after page 1, return the very
  same value, so a caller has no flag to branch on.
\<close>

theorem no_failure_flag_counterexample:
  "get_consensus_data_with_pagination flaky_server 1 (JInt 2) = Inr JNull
   \<and> served steady_server 0 (JInt 1) [Page [JStr ''a''] (Some 0)]
   \<and> map_option snd (get_all_consensus_data flaky_server) = Some (Some [JStr ''a''])
   \<and> map_option snd (get_all_consensus_data steady_server) = Some (Some [JStr ''a''])"
  by (simp add: flaky_server_def steady_server_def page_view_def page_loop.simps run_defs)

text \<open>
  C7, as amended. On a response whose status is no error and whose body decodes to \<open>j\<close>,
  the transport raises nothing; it returns \<^verbatim>\<open>None\<close> when \<open>j\<close> is no mapping or has no
  key \<^verbatim>\<open>data\<close>, and otherwise the value under \<^verbatim>\<open>data\<close> as it is, without looking for
  \<^verbatim>\<open>items\<close> or \<^verbatim>\<open>paging\<close> in it.
\<close>

theorem transport_on_response:
  assumes "post n pg = Inr r"
    and "\<not> (400 \<le> status_code r \<and> status_code r < 600)"
    and "body r = Some j"
  shows "get_consensus_data_with_pagination post n pg =
     Inr (case j of
            JDict kvs \<Rightarrow> (case map_of kvs ''data'' of Some d \<Rightarrow> d | None \<Rightarrow> JNull)
          | _ \<Rightarrow> JNull)"
  using assms
  by (auto simp: get_consensus_data_with_pagination_def fetch_body_def raise_for_status_def
      response_json_def split: json.splits option.splits)

theorem transport_on_response_witness:
  "get_consensus_data_with_pagination (\<lambda>n pg. ok_response (JDict [(''data'', JStr ''x'')])) 0 (JInt 1)
     = Inr (JStr ''x'')
   \<and> get_consensus_data_with_pagination (\<lambda>n pg. ok_response (JList [])) 0 (JInt 1) = Inr JNull"
  using transport_on_response [of "\<lambda>n pg. ok_response (JDict [(''data'', JStr ''x'')])" 0 "JInt 1"
      "\<lparr>status_code = 200, body = Some (JDict [(''data'', JStr ''x'')])\<rparr>"
      "JDict [(''data'', JStr ''x'')]"]
    transport_on_response [of "\<lambda>n pg. ok_response (JList [])" 0 "JInt 1"
      "\<lparr>status_code = 200, body = Some (JList [])\<rparr>" "JList []"]
  by (simp add: ok_response_def)

text \<open>
  C7 as stated fails: the body \<^verbatim>\<open>{"data": {}}\<close> has neither \<^verbatim>\<open>data.items\<close> nor
  \<^verbatim>\<open>data.paging\<close>, and the transport returns the empty mapping, a value other than
  \<^verbatim>\<open>None\<close>.
\<close>

theorem shape_counterexample:
  "\<not> expected_shape (JDict [(''data'', JDict [])])
   \<and> get_consensus_data_with_pagination
        (\<lambda>n pg. ok_response (JDict [(''data'', JDict [])])) 0 (JInt 1) = Inr (JDict [])
   \<and> JDict [] \<noteq> JNull"
  by (simp add: expected_shape_def run_defs)


section \<open>Properties of the flattener\<close>













section \<open>Properties of the projector\<close>

lemma create_summary_csv_some:
  assumes "\<not> df_empty df" and "filter (\<lambda>col. col \<in> set (columns df)) summary_columns \<noteq> []"
  shows "columns (create_summary_csv df) =
           map exported_name (filter (\<lambda>col. col \<in> set (columns df)) summary_columns)"
    and "cells (create_summary_csv df) =
           map (\<lambda>r. map (cell_of df r) (filter (\<lambda>col. col \<in> set (columns df)) summary_columns))
             (cells df)"
  using assms
  by (simp_all add: create_summary_csv_def Let_def rename_columns_def select_columns_def
      exported_name_def)

lemma filter_all: "set summary_columns \<subseteq> S \<Longrightarrow> filter (\<lambda>col. col \<in> S) summary_columns = summary_columns"
  by (simp add: filter_id_conv subset_iff)

lemma filter_none: "set summary_columns \<inter> S = {} \<Longrightarrow> filter (\<lambda>col. col \<in> S) summary_columns = []"
  by (auto simp: filter_empty_conv)

lemma exported_not_source: "c \<in> set summary_columns \<Longrightarrow> c \<notin> exported_name ` set summary_columns"
  by (auto simp: summary_columns_def exported_name_def column_mapping_def)

lemmas summary_defs = create_summary_csv_def df_empty_def summary_columns_def column_mapping_def
  select_columns_def rename_columns_def cell_of_def empty_frame_def

text \<open>
  C8, as amended. From a frame with at least one row that has all six source columns,
  in whatever order, the projector gives exactly the six exported columns in the order
  of the rename table, with one output row for each input row, in order, holding that
  row's cells under the six source columns. A frame that is not empty and has none of
  the six source columns is returned unchanged.
\<close>

theorem summary_projection:
  "(cells df \<noteq> [] \<and> set summary_columns \<subseteq> set (columns df) \<longrightarrow>
      columns (create_summary_csv df) =
        [''Demoboard_ID'', ''Demo_IDs'', ''Salesforce_External_AccountId'',
         ''Salesforce_External_OppId'', ''View_Time_Seconds'', ''Demoboard_View_Date'']
      \<and> cells (create_summary_csv df) = map (\<lambda>r. map (cell_of df r) summary_columns) (cells df)
      \<and> length (cells (create_summary_csv df)) = length (cells df))
   \<and> (\<not> df_empty df \<and> set summary_columns \<inter> set (columns df) = {} \<longrightarrow>
      create_summary_csv df = df)"
proof (intro conjI impI)
  assume a: "cells df \<noteq> [] \<and> set summary_columns \<subseteq> set (columns df)"
  then have ne: "\<not> df_empty df"
    by (auto simp: df_empty_def summary_columns_def)
  from a have f: "filter (\<lambda>col. col \<in> set (columns df)) summary_columns = summary_columns"
    by (simp add: filter_all)
  have f': "filter (\<lambda>col. col \<in> set (columns df)) summary_columns \<noteq> []"
    unfolding f by (simp add: summary_columns_def)
  show "columns (create_summary_csv df) =
        [''Demoboard_ID'', ''Demo_IDs'', ''Salesforce_External_AccountId'',
         ''Salesforce_External_OppId'', ''View_Time_Seconds'', ''Demoboard_View_Date'']"
    unfolding create_summary_csv_some(1) [OF ne f'] f
    by (simp add: summary_columns_def exported_name_def column_mapping_def)
  show c: "cells (create_summary_csv df) = map (\<lambda>r. map (cell_of df r) summary_columns) (cells df)"
    unfolding create_summary_csv_some(2) [OF ne f'] f ..
  show "length (cells (create_summary_csv df)) = length (cells df)"
    unfolding c by simp
next
  assume a: "\<not> df_empty df \<and> set summary_columns \<inter> set (columns df) = {}"
  then have "filter (\<lambda>col. col \<in> set (columns df)) summary_columns = []"
    by (simp add: filter_none)
  with a show "create_summary_csv df = df"
    by (simp add: create_summary_csv_def)
qed

theorem summary_projection_witness:
  "create_summary_csv full_frame =
     \<lparr>columns = [''Demoboard_ID'', ''Demo_IDs'', ''Salesforce_External_AccountId'',
         ''Salesforce_External_OppId'', ''View_Time_Seconds'', ''Demoboard_View_Date''],
      cells = [[JStr ''A1'', JStr ''d1'', JStr ''X'', JStr ''O'', JInt 42, JStr ''2025-01-01''],
               [JStr '''', JStr ''d2'', JStr ''X'', JStr ''O'', JInt 42, JStr ''2025-01-01'']]\<rparr>
   \<and> create_summary_csv foreign_frame = foreign_frame"
proof -
  have 1: "cells full_frame \<noteq> [] \<and> set summary_columns \<subseteq> set (columns full_frame)"
    by (simp add: full_frame_def summary_columns_def)
  have 2: "\<not> df_empty foreign_frame \<and> set summary_columns \<inter> set (columns foreign_frame) = {}"
    by (simp add: foreign_frame_def summary_columns_def df_empty_def)
  have 3: "map (\<lambda>r. map (cell_of full_frame r) summary_columns) (cells full_frame) =
      [[JStr ''A1'', JStr ''d1'', JStr ''X'', JStr ''O'', JInt 42, JStr ''2025-01-01''],
       [JStr '''', JStr ''d2'', JStr ''X'', JStr ''O'', JInt 42, JStr ''2025-01-01'']]"
    by (simp add: full_frame_def summary_columns_def cell_of_def)
  from summary_projection [of full_frame] 1 3
  have "columns (create_summary_csv full_frame) =
        [''Demoboard_ID'', ''Demo_IDs'', ''Salesforce_External_AccountId'',
         ''Salesforce_External_OppId'', ''View_Time_Seconds'', ''Demoboard_View_Date'']"
    and "cells (create_summary_csv full_frame) =
      [[JStr ''A1'', JStr ''d1'', JStr ''X'', JStr ''O'', JInt 42, JStr ''2025-01-01''],
       [JStr '''', JStr ''d2'', JStr ''X'', JStr ''O'', JInt 42, JStr ''2025-01-01'']]"
    by simp_all
  then have "create_summary_csv full_frame =
     \<lparr>columns = [''Demoboard_ID'', ''Demo_IDs'', ''Salesforce_External_AccountId'',
         ''Salesforce_External_OppId'', ''View_Time_Seconds'', ''Demoboard_View_Date''],
      cells = [[JStr ''A1'', JStr ''d1'', JStr ''X'', JStr ''O'', JInt 42, JStr ''2025-01-01''],
               [JStr '''', JStr ''d2'', JStr ''X'', JStr ''O'', JInt 42, JStr ''2025-01-01'']]\<rparr>"
    by (cases "create_summary_csv full_frame") simp
  moreover from summary_projection [of foreign_frame] 2
  have "create_summary_csv foreign_frame = foreign_frame" by simp
  ultimately show ?thesis by simp
qed

text \<open>
  C8 as stated fails in its second part: \<open>headers_only\<close> has none of the six source
  columns, and no rows; line 124 answers it with a fresh frame that has no columns, which
  is not the input.
\<close>

theorem headers_only_counterexample:
  "set summary_columns \<inter> set (columns headers_only) = {}
   \<and> create_summary_csv headers_only = \<lparr>columns = [], cells = []\<rparr>
   \<and> create_summary_csv headers_only \<noteq> headers_only"
  by (simp add: headers_only_def summary_defs)

text \<open>
  C10, as amended. From a frame that is not empty and has at least one but not all of
  the six source columns, the projector selects the source columns that are present,
  in the order of the rename table, and renames each; the rows keep their number and
  order; the missing columns are left out, not added; and the result is not the input.
\<close>

theorem partial_projection:
  assumes "\<not> df_empty df"
    and "\<exists>c \<in> set summary_columns. c \<in> set (columns df)"
    and "\<exists>c \<in> set summary_columns. c \<notin> set (columns df)"
  shows "columns (create_summary_csv df) =
           map exported_name (filter (\<lambda>col. col \<in> set (columns df)) summary_columns)
     \<and> cells (create_summary_csv df) =
           map (\<lambda>r. map (cell_of df r) (filter (\<lambda>col. col \<in> set (columns df)) summary_columns))
             (cells df)
     \<and> length (cells (create_summary_csv df)) = length (cells df)
     \<and> length (columns (create_summary_csv df)) < length summary_columns
     \<and> create_summary_csv df \<noteq> df"
proof -
  let ?avail = "filter (\<lambda>col. col \<in> set (columns df)) summary_columns"
  from assms(2) obtain c where c: "c \<in> set summary_columns" "c \<in> set (columns df)"
    by blast
  from c have ne: "?avail \<noteq> []" by (auto simp: filter_empty_conv)
  have cols: "columns (create_summary_csv df) = map exported_name ?avail"
    by (rule create_summary_csv_some(1) [OF assms(1) ne])
  have cls: "cells (create_summary_csv df) = map (\<lambda>r. map (cell_of df r) ?avail) (cells df)"
    by (rule create_summary_csv_some(2) [OF assms(1) ne])
  have len: "length (cells (create_summary_csv df)) = length (cells df)"
    by (simp only: cls length_map)
  from assms(3) obtain m where m: "m \<in> set summary_columns" "m \<notin> set (columns df)"
    by blast
  have "length ?avail < length summary_columns"
    using m by (rule length_filter_less)
  then have few: "length (columns (create_summary_csv df)) < length summary_columns"
    by (simp only: cols length_map)
  have changed: "create_summary_csv df \<noteq> df"
  proof
    assume eq: "create_summary_csv df = df"
    have "set (columns (create_summary_csv df)) \<subseteq> exported_name ` set summary_columns"
      unfolding cols by auto
    then have "set (columns df) \<subseteq> exported_name ` set summary_columns"
      by (simp only: eq)
    with c(2) have "c \<in> exported_name ` set summary_columns" by blast
    with exported_not_source [OF c(1)] show False by contradiction
  qed
  from cols cls len few changed show ?thesis by (intro conjI)
qed

theorem partial_projection_witness:
  "\<not> df_empty partial_frame
   \<and> create_summary_csv partial_frame =
       \<lparr>columns = [''Demoboard_ID'', ''View_Time_Seconds''],
        cells = [[JStr ''A1'', JInt 42], [JStr '''', JInt 7]]\<rparr>"
proof -
  have 1: "\<not> df_empty partial_frame" by (simp add: partial_frame_def df_empty_def)
  have 2: "\<exists>c \<in> set summary_columns. c \<in> set (columns partial_frame)"
    by (simp add: partial_frame_def summary_columns_def)
  have 3: "\<exists>c \<in> set summary_columns. c \<notin> set (columns partial_frame)"
    by (simp add: partial_frame_def summary_columns_def)
  have 4: "filter (\<lambda>col. col \<in> set (columns partial_frame)) summary_columns =
      [''senddemoUuid'', ''viewTime'']"
    by (simp add: partial_frame_def summary_columns_def)
  from partial_projection [OF 1 2 3]
  have "columns (create_summary_csv partial_frame) = [''Demoboard_ID'', ''View_Time_Seconds'']"
    and "cells (create_summary_csv partial_frame) = [[JStr ''A1'', JInt 42], [JStr '''', JInt 7]]"
    unfolding 4
    by (simp_all add: exported_name_def column_mapping_def cell_of_def partial_frame_def)
  then have "create_summary_csv partial_frame =
       \<lparr>columns = [''Demoboard_ID'', ''View_Time_Seconds''],
        cells = [[JStr ''A1'', JInt 42], [JStr '''', JInt 7]]\<rparr>"
    by (cases "create_summary_csv partial_frame") simp
  with 1 show ?thesis by simp
qed

text \<open>
  C10 as stated fails: \<open>partial_headers\<close> has two of the six source columns and no
  rows; line 124 answers it with a frame that has no columns at all, so the columns that
  are present are neither selected nor renamed.
\<close>

theorem partial_headers_counterexample:
  "''viewTime'' \<in> set summary_columns \<and> ''viewTime'' \<in> set (columns partial_headers)
   \<and> ''demoUuids'' \<in> set summary_columns \<and> ''demoUuids'' \<notin> set (columns partial_headers)
   \<and> columns (create_summary_csv partial_headers) = []"
  by (simp add: partial_headers_def summary_defs)


section \<open>Properties of the clean-up\<close>

lemma map2_upt:
  "length r = n \<Longrightarrow> map2 F [0..<n] r = map (\<lambda>j. F j (r ! j)) [0..<n]"
  by (auto simp add: list_eq_iff_nth_eq)

lemma in_columns_map:
  assumes "list_all (\<lambda>r. length r = n) rows"
  shows "in_columns chosen f n rows =
           map (\<lambda>r. map (\<lambda>j. if chosen (column rows j) then f (r ! j) else r ! j) [0..<n]) rows"
  unfolding in_columns_def using assms
  by (intro map_cong refl) (simp add: list_all_iff map2_upt)

lemma length_in_columns: "length (in_columns chosen f n rows) = length rows"
  by (simp add: in_columns_def)

lemma in_columns_nth:
  assumes "list_all (\<lambda>r. length r = n) rows" "i < length rows" "j < n"
  shows "in_columns chosen f n rows ! i ! j =
           (if chosen (column rows j) then f (rows ! i ! j) else rows ! i ! j)"
  using assms by (simp add: in_columns_map)

lemma in_columns_rect:
  assumes "list_all (\<lambda>r. length r = n) rows"
  shows "list_all (\<lambda>r. length r = n) (in_columns chosen f n rows)"
  using assms by (simp add: in_columns_map list_all_iff)

lemma column_in_columns:
  assumes "list_all (\<lambda>r. length r = n) rows" "j < n"
  shows "column (in_columns chosen f n rows) j =
           map (\<lambda>v. if chosen (column rows j) then f v else v) (column rows j)"
  using assms by (simp add: in_columns_map column_def)

lemma is_cell_simps [simp]:
  "is_missing Missing" "\<not> is_missing (Whole i)" "\<not> is_missing (Frac q)" "\<not> is_missing (Text s)"
  "\<not> is_number Missing" "is_number (Whole i)" "is_number (Frac q)" "\<not> is_number (Text s)"
  "\<not> is_whole Missing" "is_whole (Whole i)" "\<not> is_whole (Frac q)" "\<not> is_whole (Text s)"
  "\<not> is_frac Missing" "\<not> is_frac (Whole i)" "is_frac (Frac q)" "\<not> is_frac (Text s)"
  "\<not> is_text Missing" "\<not> is_text (Whole i)" "\<not> is_text (Frac q)" "is_text (Text s)"
  by (simp_all add: is_missing_def is_number_def is_whole_def is_frac_def is_text_def)

lemma numeric_iff:
  "numeric xs \<longleftrightarrow> (\<forall>v \<in> set xs. \<not> is_text v) \<and> (\<exists>v \<in> set xs. is_number v)"
proof -
  have "(is_number v \<or> is_missing v) = (\<not> is_text v)" for v by (cases v) simp_all
  then show ?thesis by (simp add: numeric_def list_all_iff list_ex_iff)
qed

lemma numeric_kept:
  assumes "list_all (\<lambda>r. length r = n) rows" "j < n"
  shows "numeric (column (filter (\<lambda>r. \<not> list_all is_missing r) rows) j) = numeric (column rows j)"
proof -
  have miss: "is_missing (r ! j)" if "r \<in> set rows" "list_all is_missing r" for r
    using that assms by (auto simp add: list_all_iff)
  have str: "\<not> list_all is_missing r" if "r \<in> set rows" "is_text (r ! j)" for r
    using miss [OF that(1)] that(2) by (cases "r ! j") auto
  have num: "\<not> list_all is_missing r" if "r \<in> set rows" "is_number (r ! j)" for r
    using miss [OF that(1)] that(2) by (cases "r ! j") auto
  have 1: "(\<forall>v \<in> set (column (filter (\<lambda>r. \<not> list_all is_missing r) rows) j). \<not> is_text v)
            = (\<forall>v \<in> set (column rows j). \<not> is_text v)"
    unfolding column_def using str by auto
  have 2: "(\<exists>v \<in> set (column (filter (\<lambda>r. \<not> list_all is_missing r) rows) j). is_number v)
            = (\<exists>v \<in> set (column rows j). is_number v)"
    unfolding column_def using num by auto
  show ?thesis unfolding numeric_iff 1 2 ..
qed

lemma sentinel_kinds [simp]:
  "is_number (sentinel_to_empty v) = is_number v"
  "is_text (sentinel_to_empty v) = (is_text v \<or> is_missing v)"
  by (cases v; simp add: sentinel_to_empty_def)+

lemma numeric_replaced:
  "numeric (map (\<lambda>v. if \<not> numeric xs then sentinel_to_empty v else v) xs) = numeric xs"
proof (cases "numeric xs")
  case True
  then show ?thesis by simp
next
  case False
  have "\<not> numeric (map sentinel_to_empty xs)"
    using False unfolding numeric_iff by auto
  with False show ?thesis by simp
qed

lemma tidy_sentinel: "tidy str_of (sentinel_to_empty v) = Text (as_text str_of v)"
  by (cases v)
    (auto simp add: tidy_def sentinel_to_empty_def as_text_def normal_form_def trimmed_def
      strip_def Let_def)

lemma kept_rect:
  "rectangular df \<Longrightarrow> list_all (\<lambda>r. length r = length (labels df)) (kept_rows df)"
  by (simp add: rectangular_def kept_rows_def list_all_iff)

lemma replace_entries:
  "entries (replace_sentinels (dropna_all df)) =
     in_columns (\<lambda>xs. \<not> numeric xs) sentinel_to_empty (length (labels df)) (kept_rows df)"
  by (simp add: replace_sentinels_def dropna_all_def kept_rows_def)

lemma tidy_entries:
  "entries (tidy_columns str_of (replace_sentinels (dropna_all df))) =
     in_columns (\<lambda>xs. \<not> numeric xs) (tidy str_of) (length (labels df))
       (in_columns (\<lambda>xs. \<not> numeric xs) sentinel_to_empty (length (labels df)) (kept_rows df))"
  by (simp add: tidy_columns_def replace_sentinels_def dropna_all_def kept_rows_def)

lemma tidy_labels:
  "labels (tidy_columns str_of (replace_sentinels (dropna_all df))) = labels df"
  by (simp add: tidy_columns_def replace_sentinels_def dropna_all_def)

lemma tidied_column:
  assumes "rectangular df" "j < length (labels df)"
  shows "column (entries (tidy_columns str_of (replace_sentinels (dropna_all df)))) j =
           (if numeric (column (kept_rows df) j) then column (kept_rows df) j
            else map (\<lambda>v. Text (as_text str_of v)) (column (kept_rows df) j))"
proof -
  let ?n = "length (labels df)"
  let ?K = "kept_rows df"
  let ?R = "in_columns (\<lambda>xs. \<not> numeric xs) sentinel_to_empty ?n ?K"
  have K: "list_all (\<lambda>r. length r = ?n) ?K" using assms(1) by (rule kept_rect)
  have R: "list_all (\<lambda>r. length r = ?n) ?R" using K by (rule in_columns_rect)
  have cR: "column ?R j =
      map (\<lambda>v. if \<not> numeric (column ?K j) then sentinel_to_empty v else v) (column ?K j)"
    using K assms(2) by (rule column_in_columns)
  have nR: "numeric (column ?R j) = numeric (column ?K j)"
    unfolding cR by (rule numeric_replaced)
  have "column (in_columns (\<lambda>xs. \<not> numeric xs) (tidy str_of) ?n ?R) j =
      map (\<lambda>v. if \<not> numeric (column ?R j) then tidy str_of v else v) (column ?R j)"
    using R assms(2) by (rule column_in_columns)
  also have "\<dots> = (if numeric (column ?K j) then column ?K j
            else map (\<lambda>v. Text (as_text str_of v)) (column ?K j))"
    unfolding nR by (auto simp add: cR tidy_sentinel comp_def)
  finally show ?thesis unfolding tidy_entries .
qed

lemma tidied_rect:
  assumes "rectangular df"
  shows "list_all (\<lambda>r. length r = length (labels df))
           (entries (tidy_columns str_of (replace_sentinels (dropna_all df))))"
  unfolding tidy_entries by (intro in_columns_rect kept_rect assms)

lemma tidied_length:
  "length (entries (tidy_columns str_of (replace_sentinels (dropna_all df)))) = length (kept_rows df)"
  unfolding tidy_entries by (simp add: length_in_columns)

lemma column_nth: "i < length rows \<Longrightarrow> column rows j ! i = rows ! i ! j"
  by (simp add: column_def)

lemma coerce_nth:
  assumes "i < length (entries df)" "j < length (entries df ! i)"
  shows "entries (coerce_numeric parse df) ! i ! j =
           (if labels df ! j \<in> set numeric_columns
            then to_numeric parse (column (entries df) j) ! i else column (entries df) j ! i)"
  using assms by (simp add: coerce_numeric_def column_nth)

lemma clean_labels [simp]: "labels (clean_consensus_data str_of parse df) = labels df"
  by (simp add: clean_consensus_data_def coerce_numeric_def tidy_labels)

lemma clean_length:
  "length (entries (clean_consensus_data str_of parse df)) = length (kept_rows df)"
  by (simp add: clean_consensus_data_def coerce_numeric_def tidied_length)

lemma clean_row_length:
  assumes "rectangular df" "i < length (kept_rows df)"
  shows "length (entries (clean_consensus_data str_of parse df) ! i) = length (labels df)"
proof -
  let ?T = "entries (tidy_columns str_of (replace_sentinels (dropna_all df)))"
  have "length (?T ! i) = length (labels df)"
    using tidied_rect [OF assms(1), of str_of] assms(2)
    by (simp add: list_all_length tidied_length)
  then show ?thesis
    using assms(2) by (simp add: clean_consensus_data_def coerce_numeric_def tidied_length)
qed

lemma clean_cell:
  assumes "rectangular df" "i < length (kept_rows df)" "j < length (labels df)"
  shows "entries (clean_consensus_data str_of parse df) ! i ! j =
           (if labels df ! j \<in> set numeric_columns
            then to_numeric parse
                   (if numeric (column (kept_rows df) j) then column (kept_rows df) j
                    else map (\<lambda>v. Text (as_text str_of v)) (column (kept_rows df) j)) ! i
            else if numeric (column (kept_rows df) j) then kept_rows df ! i ! j
            else Text (as_text str_of (kept_rows df ! i ! j)))"
proof -
  let ?D = "tidy_columns str_of (replace_sentinels (dropna_all df))"
  have len: "i < length (entries ?D)" using assms(2) by (simp add: tidied_length)
  have "length (entries ?D ! i) = length (labels df)"
    using tidied_rect [OF assms(1), of str_of] len by (simp add: list_all_length)
  then have row: "j < length (entries ?D ! i)" using assms(3) by simp
  show ?thesis
    unfolding clean_consensus_data_def coerce_nth [OF len row] tidy_labels
      tidied_column [OF assms(1) assms(3)]
    using assms(2) by (simp add: column_def)
qed

lemma value_as_float [simp]: "value_of (as_float v) = value_of v"
  by (cases v) (simp_all add: value_of_def as_float_def)

lemma as_float_kinds [simp]:
  "is_number (as_float v) = is_number v" "is_missing (as_float v) = is_missing v"
  "is_text (as_float v) = is_text v"
  by (cases v; simp add: as_float_def)+

lemma read_number_kind: "is_number (read_number parse v) \<or> is_missing (read_number parse v)"
  by (cases v) (simp_all add: read_number_def)

lemma value_read_number:
  "value_of (read_number parse v) = (case v of Text s \<Rightarrow> value_of (parse s) | _ \<Rightarrow> value_of v)"
  by (cases v; cases "parse (case v of Text s \<Rightarrow> s | _ \<Rightarrow> [])")
    (simp_all add: read_number_def value_of_def)

lemma to_numeric_nth:
  assumes "i < length xs"
  shows "(is_number (to_numeric parse xs ! i) \<or> is_missing (to_numeric parse xs ! i)) \<and>
         value_of (to_numeric parse xs ! i) =
           (case xs ! i of Text s \<Rightarrow> value_of (parse s) | v \<Rightarrow> value_of v)"
  using assms read_number_kind [of parse "xs ! i"]
  by (cases "xs ! i") (simp_all add: to_numeric_def Let_def value_read_number)

lemma those_map_Some:
  "(\<And>x. x \<in> set xs \<Longrightarrow> f x \<noteq> None) \<Longrightarrow> those (map f xs) = Some (map (\<lambda>x. the (f x)) xs)"
proof (induction xs)
  case Nil
  show ?case by simp
next
  case (Cons a xs)
  have "f a \<noteq> None" by (rule Cons.prems) simp
  then obtain y where y: "f a = Some y" by blast
  have "those (map f xs) = Some (map (\<lambda>x. the (f x)) xs)"
    by (rule Cons.IH) (rule Cons.prems, simp)
  with y show ?case by simp
qed

lemma those_map_eq_Some:
  "those (map f xs) = Some ys \<Longrightarrow> ys = map (\<lambda>x. the (f x)) xs \<and> (\<forall>x \<in> set xs. f x \<noteq> None)"
  by (induction xs arbitrary: ys) (auto split: option.splits)

lemma cells_of_length: "cells_of r = Some cs \<Longrightarrow> length cs = length r"
  unfolding cells_of_def by (drule those_map_eq_Some) simp

lemma DataFrame_rectangular:
  assumes "DataFrame records = Some df"
  shows "rectangular df"
proof (cases records)
  case Nil
  with assms have "df = no_frame" by (simp add: DataFrame_def)
  then show ?thesis by (simp add: no_frame_def rectangular_def)
next
  case (Cons r rs)
  let ?cols = "map fst r"
  from assms Cons obtain raw where
    keys: "list_all (\<lambda>r. map fst r = ?cols) records"
    and raw: "those (map cells_of records) = Some raw"
    and df: "df = \<lparr>labels = ?cols, entries = in_columns float_column as_float (length ?cols) raw\<rparr>"
    by (auto simp add: DataFrame_def Let_def split: if_splits option.splits)
  from those_map_eq_Some [OF raw]
  have r1: "raw = map (\<lambda>x. the (cells_of x)) records" and r2: "\<forall>x \<in> set records. cells_of x \<noteq> None"
    by simp_all
  have "length (the (cells_of x)) = length ?cols" if "x \<in> set records" for x
  proof -
    from r2 that obtain cs where cs: "cells_of x = Some cs" by auto
    from keys that have "map fst x = ?cols" by (simp add: list_all_iff)
    then have "length (map fst x) = length ?cols" by (rule arg_cong)
    with cells_of_length [OF cs] cs show ?thesis by simp
  qed
  then have "list_all (\<lambda>r. length r = length ?cols) raw"
    unfolding r1 by (simp add: list_all_iff)
  then have "list_all (\<lambda>r. length r = length ?cols)
      (in_columns float_column as_float (length ?cols) raw)"
    by (rule in_columns_rect)
  then show ?thesis by (simp add: df rectangular_def)
qed

lemma small_inverse:
  "- 9007199254740992 \<le> i \<Longrightarrow> i \<le> 9007199254740992 \<Longrightarrow> Rep_small (Abs_small i) = i"
  by (simp add: Abs_small_inverse)

lemma small_eq:
  "- 9007199254740992 \<le> i \<Longrightarrow> i \<le> 9007199254740992 \<Longrightarrow>
   - 9007199254740992 \<le> j \<Longrightarrow> j \<le> 9007199254740992 \<Longrightarrow>
   (Abs_small i = Abs_small j) = (i = j)"
  by (simp add: Abs_small_inject)

lemmas frame_defs = DataFrame_def cells_of_def to_cell_def in_columns_def column_def
  float_column_def numeric_def as_float_def no_frame_def

lemmas clean_defs = clean_consensus_data_def coerce_numeric_def tidy_columns_def
  replace_sentinels_def dropna_all_def in_columns_def column_def numeric_def
  sentinel_to_empty_def tidy_def to_numeric_def read_number_def numeric_columns_def
  as_float_def strip_def py_isspace_def

text \<open>
  C9, corrected. For every frame \<open>df\<close> that \<^verbatim>\<open>pd.DataFrame\<close> builds from a list of flat
  records, the clean-up keeps the column labels and keeps, in their order, exactly the
  rows of \<open>df\<close> that have a cell that is not missing, one cell for each column. A kept
  cell of a column other than \<^verbatim>\<open>viewTime\<close> is unchanged when its column is numeric, a
  missing cell included; in a column that is not numeric it becomes a string: the
  empty string for a missing cell and for the strings \<^verbatim>\<open>null\<close> and \<^verbatim>\<open>None\<close>, and
  otherwise the string (or the printed number) without surrounding whitespace, the
  empty string when that is \<^verbatim>\<open>nan\<close>. A kept cell of \<^verbatim>\<open>viewTime\<close> becomes a number or a
  missing cell, never a string: a cell of a numeric column keeps its value, and a cell
  of a column that is not numeric gets the number that its string reads as, and is
  missing when the string reads as no number.
\<close>

theorem clean_cells:
  assumes "DataFrame records = Some df"
  shows "labels (clean_consensus_data str_of parse df) = labels df
     \<and> rectangular (clean_consensus_data str_of parse df)
     \<and> length (entries (clean_consensus_data str_of parse df)) = length (kept_rows df)
     \<and> (\<forall>i < length (kept_rows df). \<forall>j < length (labels df).
          let v = kept_rows df ! i ! j;
              w = entries (clean_consensus_data str_of parse df) ! i ! j;
              object = (\<not> numeric (column (entries df) j))
          in if labels df ! j \<in> set numeric_columns
             then (is_number w \<or> is_missing w)
                  \<and> value_of w = (if object then value_of (parse (as_text str_of v))
                                  else value_of v)
             else w = (if object then Text (as_text str_of v) else v))"
proof -
  let ?out = "clean_consensus_data str_of parse df"
  have rect: "rectangular df" using assms by (rule DataFrame_rectangular)
  then have rows: "list_all (\<lambda>r. length r = length (labels df)) (entries df)"
    by (simp add: rectangular_def)
  have "rectangular ?out"
    unfolding rectangular_def list_all_length
    by (simp add: clean_length clean_row_length [OF rect])
  moreover have "let v = kept_rows df ! i ! j; w = entries ?out ! i ! j;
              object = (\<not> numeric (column (entries df) j))
          in if labels df ! j \<in> set numeric_columns
             then (is_number w \<or> is_missing w)
                  \<and> value_of w = (if object then value_of (parse (as_text str_of v))
                                  else value_of v)
             else w = (if object then Text (as_text str_of v) else v)"
    if i: "i < length (kept_rows df)" and j: "j < length (labels df)" for i j
  proof -
    let ?c = "column (kept_rows df) j"
    have num: "numeric ?c = numeric (column (entries df) j)"
      unfolding kept_rows_def using rows j by (rule numeric_kept)
    have len: "i < length ?c" using i by (simp add: column_def)
    have ci: "?c ! i = kept_rows df ! i ! j" using i by (simp add: column_def)
    show ?thesis
    proof (cases "numeric (column (entries df) j)")
      case True
      then have "numeric ?c" by (simp add: num)
      then have "\<not> is_text (?c ! i)"
        using len by (simp add: numeric_iff)
      with True to_numeric_nth [OF len, of parse] show ?thesis
        unfolding Let_def clean_cell [OF rect i j] num
        by (cases "kept_rows df ! i ! j") (simp_all add: ci)
    next
      case False
      have len': "i < length (map (\<lambda>v. Text (as_text str_of v)) ?c)" using len by simp
      from False to_numeric_nth [OF len', of parse] show ?thesis
        unfolding Let_def clean_cell [OF rect i j] num
        using len by (simp add: ci)
    qed
  qed
  ultimately show ?thesis by (simp add: clean_length)
qed

text \<open>
  A run of the theorem: of the four rows of \<open>wordy_records\<close> the second, all missing,
  is dropped; \<^verbatim>\<open>' A1 '\<close> is trimmed, \<^verbatim>\<open>None\<close> becomes the empty string, and the
  \<^verbatim>\<open>viewTime\<close> cells \<^verbatim>\<open>abc\<close>, \<^verbatim>\<open>' 42 '\<close> and 5 become missing, 42 and 5.
\<close>

theorem clean_cells_witness:
  "DataFrame wordy_records =
     Some \<lparr>labels = [''senddemoUuid'', ''viewTime''],
            entries = [[Text '' A1 '', Text ''abc''], [Missing, Missing],
                       [Text ''None'', Text '' 42 ''], [Text ''d 1'', Whole (Abs_small 5)]]\<rparr>
   \<and> (let out = clean_consensus_data toy_str toy_parse (the (DataFrame wordy_records))
      in labels out = [''senddemoUuid'', ''viewTime''] \<and> length (entries out) = 3
         \<and> map (\<lambda>r. r ! 0) (entries out) = [Text ''A1'', Text '''', Text ''d 1'']
         \<and> map (\<lambda>r. value_of (r ! 1)) (entries out) = [None, Some 42, Some 5]
         \<and> list_all (\<lambda>r. is_number (r ! 1) \<or> is_missing (r ! 1)) (entries out))"
proof -
  let ?df = "\<lparr>labels = [''senddemoUuid'', ''viewTime''],
            entries = [[Text '' A1 '', Text ''abc''], [Missing, Missing],
                       [Text ''None'', Text '' 42 ''], [Text ''d 1'', Whole (Abs_small 5)]]\<rparr>"
  let ?out = "clean_consensus_data toy_str toy_parse ?df"
  have df: "DataFrame wordy_records = Some ?df"
    by (simp add: wordy_records_def frame_defs)
  have kept: "kept_rows ?df = [[Text '' A1 '', Text ''abc''],
      [Text ''None'', Text '' 42 ''], [Text ''d 1'', Whole (Abs_small 5)]]"
    by (simp add: kept_rows_def)
  have str: "as_text toy_str (Text '' A1 '') = ''A1''" "as_text toy_str (Text ''None'') = ''''"
    "as_text toy_str (Text ''d 1'') = ''d 1''" "as_text toy_str (Text ''abc'') = ''abc''"
    "as_text toy_str (Text '' 42 '') = ''42''" "as_text toy_str (Whole (Abs_small 5)) = ''5''"
    by (simp_all add: as_text_def normal_form_def trimmed_def strip_def py_isspace_def toy_str_def)
  have val: "value_of (toy_parse ''abc'') = None" "value_of (toy_parse ''42'') = Some 42"
    "value_of (toy_parse ''5'') = Some 5"
    by (simp_all add: toy_parse_def value_of_def small_inverse)
  from clean_cells [OF df, of toy_str toy_parse]
  have lab: "labels ?out = [''senddemoUuid'', ''viewTime'']"
    and len: "length (entries ?out) = 3"
    and cell: "\<And>i j. i < 3 \<Longrightarrow> j < 2 \<Longrightarrow>
          (let v = kept_rows ?df ! i ! j; w = entries ?out ! i ! j;
              object = (\<not> numeric (column (entries ?df) j))
          in if labels ?df ! j \<in> set numeric_columns
             then (is_number w \<or> is_missing w)
                  \<and> value_of w = (if object then value_of (toy_parse (as_text toy_str v))
                                  else value_of v)
             else w = (if object then Text (as_text toy_str v) else v))"
    by (simp_all add: kept)
  from len obtain a b c where out: "entries ?out = [a, b, c]"
    by (auto simp add: length_Suc_conv numeral_3_eq_3)
  from cell [of 0 0] cell [of 1 0] cell [of 2 0] cell [of 0 1] cell [of 1 1] cell [of 2 1]
  have "a ! 0 = Text ''A1''" "b ! 0 = Text ''''" "c ! 0 = Text ''d 1''"
    "value_of (a ! 1) = None" "value_of (b ! 1) = Some 42" "value_of (c ! 1) = Some 5"
    "is_number (a ! 1) \<or> is_missing (a ! 1)" "is_number (b ! 1) \<or> is_missing (b ! 1)"
    "is_number (c ! 1) \<or> is_missing (c ! 1)"
    by (simp_all add: Let_def kept numeric_def column_def str val out numeric_columns_def)
  with df lab len out show ?thesis by simp
qed

text \<open>
  C9 as stated fails on \<open>gappy_records\<close>. The \<^verbatim>\<open>organization\<close> and \<^verbatim>\<open>viewTime\<close> columns
  are numeric, and the absent values of the second row stay missing instead of
  becoming the empty string; that row, whose only string is the sentinel \<^verbatim>\<open>null\<close>, is
  empty in every field after the clean-up and is kept; and the string \<^verbatim>\<open>' nan '\<close> of
  the third row becomes the empty string, which is not what trimming gives.
\<close>

theorem numeric_gap_counterexample:
  "DataFrame gappy_records =
     Some \<lparr>labels = [''senddemoUuid'', ''organization'', ''viewTime''],
            entries = [[Text ''A1'', Frac 3, Frac 42], [Text ''null'', Missing, Missing],
                       [Text '' nan '', Frac 4, Frac 7]]\<rparr>
   \<and> clean_consensus_data toy_str toy_parse (the (DataFrame gappy_records)) =
       \<lparr>labels = [''senddemoUuid'', ''organization'', ''viewTime''],
         entries = [[Text ''A1'', Frac 3, Frac 42], [Text '''', Missing, Missing],
                    [Text '''', Frac 4, Frac 7]]\<rparr>
   \<and> strip '' nan '' = ''nan''"
proof -
  have df: "DataFrame gappy_records =
     Some \<lparr>labels = [''senddemoUuid'', ''organization'', ''viewTime''],
            entries = [[Text ''A1'', Frac 3, Frac 42], [Text ''null'', Missing, Missing],
                       [Text '' nan '', Frac 4, Frac 7]]\<rparr>"
    by (simp add: gappy_records_def frame_defs small_inverse)
  show ?thesis
    unfolding df
    by (simp add: clean_defs nth_Cons' upt_rec [of _ 2] upt_rec [of _ 3] upt_rec [of _ 4])
qed

end
